theory Spec2Isabelle
  imports Complex_Main
begin

section \<open>DiverseSelector: the metric calculation module (distance.py)\<close>

text \<open>
  The module computes similarities and distances between feature vectors of molecules.
  Vectors are numpy arrays of integers (bit fingerprints), modelled as \<open>int list\<close>; a
  feature matrix is the list of its rows. Python floats are modelled as \<open>real\<close>,
  without rounding. An exception that Python raises is a value of \<open>error\<close>. Where numpy
  divides by zero it raises nothing: it hands back nan or an infinity, and the computation
  goes on with that value; such results are values of \<open>npfloat\<close>.
\<close>

subsection \<open>Errors and the numpy and Python primitives the module uses\<close>

datatype error =
    IndexError
  | ZeroDivisionError
  | ValueError string
  | TypeError "string list"
  | KeyError string

text \<open>A numpy float: a number, nan, or one of the two infinities.\<close>

datatype npfloat = Finite real | Nan | PosInf | NegInf

text \<open>Addition of numpy floats.\<close>

fun fl_add :: "npfloat \<Rightarrow> npfloat \<Rightarrow> npfloat" where
  "fl_add (Finite u) (Finite w) = Finite (u + w)"
| "fl_add Nan _ = Nan"
| "fl_add _ Nan = Nan"
| "fl_add PosInf NegInf = Nan"
| "fl_add NegInf PosInf = Nan"
| "fl_add PosInf _ = PosInf"
| "fl_add _ PosInf = PosInf"
| "fl_add NegInf _ = NegInf"
| "fl_add _ NegInf = NegInf"

text \<open>The comparison \<open>==\<close> of numpy floats: nan is equal to nothing, itself included.\<close>

fun fl_eq :: "npfloat \<Rightarrow> npfloat \<Rightarrow> bool" where
  "fl_eq (Finite u) w = (case w of Finite w' \<Rightarrow> u = w' | _ \<Rightarrow> False)"
| "fl_eq Nan w = False"
| "fl_eq PosInf w = (w = PosInf)"
| "fl_eq NegInf w = (w = NegInf)"

text \<open>\<open>xs[i]\<close> for a non-negative index: IndexError when out of range.\<close>

definition getitem :: "'a list \<Rightarrow> nat \<Rightarrow> error + 'a" where
  "getitem xs i = (if i < length xs then Inr (xs ! i) else Inl IndexError)"

text \<open>\<open>np.count_nonzero\<close> of a one-dimensional array.\<close>

definition count_nonzero :: "int list \<Rightarrow> int" where
  "count_nonzero a = int (length (filter (\<lambda>v. v \<noteq> 0) a))"

text \<open>\<open>n / d\<close> on two Python ints: true division, ZeroDivisionError when \<open>d\<close> is zero.\<close>

definition py_truediv :: "int \<Rightarrow> int \<Rightarrow> error + real" where
  "py_truediv n d = (if d = 0 then Inl ZeroDivisionError else Inr (real_of_int n / real_of_int d))"

text \<open>
  Numpy pairs the elements of two one-dimensional operands by broadcasting: equal lengths
  are paired position by position, an operand of length one is repeated along the other,
  and anything else raises ValueError.
\<close>

definition broadcast_pairs :: "'a list \<Rightarrow> 'b list \<Rightarrow> error + ('a \<times> 'b) list" where
  "broadcast_pairs xs ys =
     (if length xs = length ys then Inr (zip xs ys)
      else if length xs = 1 then Inr (map (\<lambda>y. (hd xs, y)) ys)
      else if length ys = 1 then Inr (map (\<lambda>x. (x, hd ys)) xs)
      else Inl (ValueError ''operands could not be broadcast together''))"

text \<open>\<open>a * b\<close> on two one-dimensional arrays.\<close>

definition np_mul :: "int list \<Rightarrow> int list \<Rightarrow> error + int list" where
  "np_mul a b =
     (case broadcast_pairs a b of
        Inl e \<Rightarrow> Inl e
      | Inr ps \<Rightarrow> Inr (map (\<lambda>(x, y). x * y) ps))"

text \<open>
  True division where an operand may be a numpy integer. Python's builtin \<open>sum\<close>
  over an empty array is the Python int 0 and over a non-empty array a numpy integer; the
  flag says that both operands are Python ints. Python ints raise on a zero divisor;
  with a numpy integer the quotient by zero is nan for a zero dividend and an infinity of
  the dividend's sign otherwise.
\<close>

definition sum_truediv :: "bool \<Rightarrow> int \<Rightarrow> int \<Rightarrow> error + npfloat" where
  "sum_truediv both_python n d =
     (if d = 0
      then (if both_python then Inl ZeroDivisionError
            else Inr (if n = 0 then Nan else if 0 < n then PosInf else NegInf))
      else Inr (Finite (real_of_int n / real_of_int d)))"

text \<open>Running a list of computations in order; the first error ends the run.\<close>

fun collect :: "(error + 'a) list \<Rightarrow> error + 'a list" where
  "collect [] = Inr []"
| "collect (r # rs) =
     (case r of
        Inl e \<Rightarrow> Inl e
      | Inr v \<Rightarrow> (case collect rs of Inl e \<Rightarrow> Inl e | Inr vs \<Rightarrow> Inr (v # vs)))"

subsection \<open>Pair metrics on bit vectors\<close>

text \<open>
  The loop shared by \<open>euc_bit\<close> and \<open>bit_tanimoto\<close>:
  \<^verbatim>\<open>
    c = 0
    for idx, _ in enumerate(a):
        if a[idx] == b[idx] and a[idx] != 0:
            c += 1
  \<close>
  The index runs over the positions of \<open>a\<close>, so \<open>a[idx]\<close> is always in range, and
  \<open>b[idx]\<close> raises IndexError once \<open>b\<close> is exhausted.
\<close>

fun intersection_loop :: "int list \<Rightarrow> int list \<Rightarrow> nat list \<Rightarrow> int \<Rightarrow> error + int" where
  "intersection_loop a b [] c = Inr c"
| "intersection_loop a b (idx # rest) c =
     (case getitem b idx of
        Inl e \<Rightarrow> Inl e
      | Inr bv \<Rightarrow> intersection_loop a b rest (if a ! idx = bv \<and> a ! idx \<noteq> 0 then c + 1 else c))"

definition euc_bit :: "int list \<Rightarrow> int list \<Rightarrow> error + real" where
  "euc_bit a b =
     (let a_feat = count_nonzero a;
          b_feat = count_nonzero b
      in case intersection_loop a b [0..<length a] 0 of
           Inl e \<Rightarrow> Inl e
         | Inr c \<Rightarrow> Inr (sqrt (real_of_int (a_feat + b_feat - 2 * c))))"

definition tanimoto :: "int list \<Rightarrow> int list \<Rightarrow> error + npfloat" where
  "tanimoto a b =
     (case np_mul a b of
        Inl e \<Rightarrow> Inl e
      | Inr ab \<Rightarrow>
          sum_truediv (a = [] \<and> b = [])
            (sum_list ab)
            (sum_list (map (\<lambda>v. v ^ 2) a) + sum_list (map (\<lambda>v. v ^ 2) b) - sum_list ab))"

definition bit_tanimoto :: "int list \<Rightarrow> int list \<Rightarrow> error + real" where
  "bit_tanimoto a b =
     (let a_feat = count_nonzero a;
          b_feat = count_nonzero b
      in case intersection_loop a b [0..<length a] 0 of
           Inl e \<Rightarrow> Inl e
         | Inr c \<Rightarrow> py_truediv c (a_feat + b_feat - c))"

text \<open>
  \<open>modified_tanimoto\<close>. The two guarded quotients never meet a zero divisor; the last
  one, \<open>p\<close>, divides by \<open>2 * n\<close>, and for \<open>n = 0\<close> every operand is a Python int.
\<close>

definition modified_tanimoto :: "int list \<Rightarrow> int list \<Rightarrow> error + real" where
  "modified_tanimoto a b =
     (let n = int (length a) in
      case np_mul a b of
        Inl e \<Rightarrow> Inl e
      | Inr ab \<Rightarrow>
         (case np_mul (map (\<lambda>v. 1 - v) a) (map (\<lambda>v. 1 - v) b) of
            Inl e \<Rightarrow> Inl e
          | Inr nab \<Rightarrow>
             (let n_11 = sum_list ab;
                  n_00 = sum_list nab;
                  t_1 = (if n_00 = n then 1 else real_of_int n_11 / real_of_int (n - n_00));
                  t_0 = (if n_11 = n then 1 else real_of_int n_00 / real_of_int (n - n_11))
              in case py_truediv ((n - n_00) + n_11) (2 * n) of
                   Inl e \<Rightarrow> Inl e
                 | Inr p \<Rightarrow> Inr ((((2 - p) / 3) * t_1) + (((1 + p) / 3) * t_0)))))"

subsection \<open>The nearest-neighbour average\<close>

text \<open>
  The inner loop of \<open>nearest_average_tanimoto\<close> for one row \<open>idx\<close>, with its three
  variables as the state:
  \<^verbatim>\<open>
    short = 100  # arbitary distance
    a = 0
    b = 0
    for jdx, _ in enumerate(x):  # search for shortest distance
        if euc_bit(x[idx], x[jdx]) < short and idx != jdx:
            short = euc_bit(x[idx], x[jdx])
            a = idx
            b = jdx
  \<close>
  Both indices come from \<open>enumerate(x)\<close> and are in range.
\<close>

fun nearest_scan ::
  "int list list \<Rightarrow> nat \<Rightarrow> nat list \<Rightarrow> real \<times> nat \<times> nat \<Rightarrow> error + (real \<times> nat \<times> nat)" where
  "nearest_scan x idx [] st = Inr st"
| "nearest_scan x idx (jdx # rest) (short, a, b) =
     (case euc_bit (x ! idx) (x ! jdx) of
        Inl e \<Rightarrow> Inl e
      | Inr d \<Rightarrow>
          if d < short \<and> idx \<noteq> jdx
          then (case euc_bit (x ! idx) (x ! jdx) of
                  Inl e \<Rightarrow> Inl e
                | Inr d' \<Rightarrow> nearest_scan x idx rest (d', idx, jdx))
          else nearest_scan x idx rest (short, a, b))"

text \<open>
  The value appended to \<open>tani\<close> for row \<open>idx\<close>: \<open>bit_tanimoto(x[a], x[b])\<close>. The
  indices are 0 or were taken from the enumeration, and the body runs only when \<open>x\<close> has a
  row, so both reads are in range.
\<close>

definition nearest_tanimoto :: "int list list \<Rightarrow> nat \<Rightarrow> error + real" where
  "nearest_tanimoto x idx =
     (case nearest_scan x idx [0..<length x] (100, 0, 0) of
        Inl e \<Rightarrow> Inl e
      | Inr (short, a, b) \<Rightarrow> bit_tanimoto (x ! a) (x ! b))"

text \<open>\<open>np.average\<close> of a list of Python floats; of the empty list it is nan.\<close>

definition np_average :: "real list \<Rightarrow> npfloat" where
  "np_average vs = (if vs = [] then Nan else Finite (sum_list vs / real (length vs)))"

definition nearest_average_tanimoto :: "int list list \<Rightarrow> error + npfloat" where
  "nearest_average_tanimoto x =
     (case collect (map (nearest_tanimoto x) [0..<length x]) of
        Inl e \<Rightarrow> Inl e
      | Inr tani \<Rightarrow> Inr (np_average tani))"

subsection \<open>The pairwise engine\<close>

text \<open>
  The index pairs of the double loop \<open>for i in range(0, size): for j in range(i + 1, size)\<close>,
  in the order the loop visits them.
\<close>

definition pair_indices :: "nat \<Rightarrow> (nat \<times> nat) list" where
  "pair_indices sz = concat (map (\<lambda>i. map (\<lambda>j. (i, j)) [i + 1..<sz]) [0..<sz])"

text \<open>\<open>int(np.ceil(np.sqrt(m)))\<close> for a non-negative integer: the least \<open>d\<close> with \<open>m \<le> d * d\<close>.\<close>

definition ceil_sqrt :: "nat \<Rightarrow> nat" where
  "ceil_sqrt m = (case find (\<lambda>d. m \<le> d * d) [0..<Suc m] of Some d \<Rightarrow> d | None \<Rightarrow> m)"

text \<open>
  The position of the pair \<open>(i, j)\<close>, \<open>i < j < d\<close>, in the condensed vector of a
  \<open>d \<times> d\<close> matrix.
\<close>

definition condensed_index :: "nat \<Rightarrow> nat \<Rightarrow> nat \<Rightarrow> nat" where
  "condensed_index d i j = i * d - (i * (i + 1)) div 2 + (j - i - 1)"

text \<open>
  \<open>scipy.spatial.distance.squareform\<close> on a vector: the empty vector gives the
  \<open>1 \<times> 1\<close> zero matrix; otherwise \<open>d = ceil(sqrt(2 * len))\<close> must satisfy
  \<open>d * (d - 1) = 2 * len\<close> (ValueError if not), and the result is the symmetric
  \<open>d \<times> d\<close> matrix with zero diagonal whose entry \<open>(i, j)\<close>, \<open>i < j\<close>, is the
  vector's entry for that pair.
\<close>

definition squareform :: "npfloat list \<Rightarrow> error + npfloat list list" where
  "squareform v =
     (if length v = 0 then Inr [[Finite 0]]
      else let d = ceil_sqrt (2 * length v) in
        if d * (d - 1) \<noteq> 2 * length v
        then Inl (ValueError ''Incompatible vector size. It must be a binomial coefficient n choose 2 for some integer n >= 2.'')
        else Inr (map (\<lambda>i. map (\<lambda>j. if i = j then Finite 0
                                       else v ! condensed_index d (min i j) (max i j))
                                [0..<d]) [0..<d]))"

text \<open>\<open>np.identity(size)\<close>.\<close>

definition identity :: "nat \<Rightarrow> npfloat list list" where
  "identity sz = map (\<lambda>i. map (\<lambda>j. if i = j then Finite 1 else Finite 0) [0..<sz]) [0..<sz]"

text \<open>\<open>A + B\<close> on two-dimensional arrays: rows are broadcast, then the entries of each row pair.\<close>

definition np_add :: "npfloat list list \<Rightarrow> npfloat list list \<Rightarrow> error + npfloat list list" where
  "np_add A B =
     (case broadcast_pairs A B of
        Inl e \<Rightarrow> Inl e
      | Inr rows \<Rightarrow>
          collect (map (\<lambda>(r, s). case broadcast_pairs r s of
                                   Inl e \<Rightarrow> Inl e
                                 | Inr ps \<Rightarrow> Inr (map (\<lambda>(u, w). fl_add u w) ps)) rows))"

text \<open>
  \<^verbatim>\<open>
    pair_simi = []
    size = len(feature)
    for i in range(0, size):
        for j in range(i + 1, size):
            pair_simi.append(metric(feature[i], feature[j]))
    pair_coeff = squareform(pair_simi) + np.identity(size)
  \<close>
\<close>

definition pairwise_similarity_bit ::
  "int list list \<Rightarrow> (int list \<Rightarrow> int list \<Rightarrow> error + npfloat) \<Rightarrow> error + npfloat list list" where
  "pairwise_similarity_bit feature metric =
     (let sz = length feature in
      case collect (map (\<lambda>(i, j). metric (feature ! i) (feature ! j)) (pair_indices sz)) of
        Inl e \<Rightarrow> Inl e
      | Inr pair_simi \<Rightarrow>
          (case squareform pair_simi of
             Inl e \<Rightarrow> Inl e
           | Inr sq \<Rightarrow> np_add sq (identity sz)))"

subsection \<open>The dispatcher\<close>

text \<open>The function objects stored in \<open>function_dict\<close>, each declared with the parameters \<open>(a, b)\<close>.\<close>

datatype metric_function = Tanimoto_fn | Modified_tanimoto_fn

fun parameters :: "metric_function \<Rightarrow> string list" where
  "parameters Tanimoto_fn = [''a'', ''b'']"
| "parameters Modified_tanimoto_fn = [''a'', ''b'']"

fun body :: "metric_function \<Rightarrow> int list \<Rightarrow> int list \<Rightarrow> error + npfloat" where
  "body Tanimoto_fn a b = tanimoto a b"
| "body Modified_tanimoto_fn a b = map_sum id Finite (modified_tanimoto a b)"

definition built_in_metrics :: "string list" where
  "built_in_metrics = [''tanimoto'', ''modified_tanimoto'']"

definition function_dict :: "string \<Rightarrow> metric_function option" where
  "function_dict = [''tanimoto'' \<mapsto> Tanimoto_fn, ''modified_tanimoto'' \<mapsto> Modified_tanimoto_fn]"

text \<open>
  \<open>f(arg)\<close>, a call with one positional argument. Python binds the argument to the
  first parameter before the body runs; the parameters left over have no default, so the
  call raises TypeError naming them, whatever the argument is.
\<close>

definition call_with_one_argument :: "metric_function \<Rightarrow> 'arg \<Rightarrow> error + 'res" where
  "call_with_one_argument f arg = Inl (TypeError (drop 1 (parameters f)))"

text \<open>
  \<open>compute_distance_matrix\<close>. The list \<open>sklearn_supported_metrics\<close> is imported from
  \<open>DiverseSelector.utils\<close> and \<open>pairwise_distances\<close> from scikit-learn; both are
  parameters here.
\<close>

definition compute_distance_matrix ::
  "string list \<Rightarrow> (int list list \<Rightarrow> string \<Rightarrow> int \<Rightarrow> bool \<Rightarrow> 'kw \<Rightarrow> error + npfloat list list) \<Rightarrow>
   int list list \<Rightarrow> string \<Rightarrow> int \<Rightarrow> bool \<Rightarrow> 'kw \<Rightarrow> error + npfloat list list" where
  "compute_distance_matrix sklearn_supported_metrics pairwise_distances
       features metric n_jobs force_all_finite kwargs =
     (if metric \<in> set sklearn_supported_metrics
      then pairwise_distances features metric n_jobs force_all_finite kwargs
      else if metric \<in> set built_in_metrics
      then (case function_dict metric of
              None \<Rightarrow> Inl (KeyError metric)
            | Some f \<Rightarrow> call_with_one_argument f features)
      else Inl (ValueError (''Metric '' @ metric @ '' is not supported by the library.'')))"

subsection \<open>Notions of the specification\<close>

text \<open>
  The specification describes the metrics through counts and dot products rather than
  loops. These definitions follow its words; the theorems below compare them with the
  functions above.
\<close>

text \<open>The number of positions at which \<open>a\<close> and \<open>b\<close> agree on a nonzero value.\<close>

definition agree_count :: "int list \<Rightarrow> int list \<Rightarrow> int" where
  "agree_count a b = int (length (filter (\<lambda>(u, v). u = v \<and> u \<noteq> 0) (zip a b)))"

text \<open>\<open>sqrt(count_nonzero(a) + count_nonzero(b) - 2 * c)\<close>.\<close>

definition euc_dist :: "int list \<Rightarrow> int list \<Rightarrow> real" where
  "euc_dist a b = sqrt (real_of_int (count_nonzero a + count_nonzero b - 2 * agree_count a b))"

text \<open>\<open>dot(a, b)\<close> of two vectors of equal length.\<close>

definition dot :: "int list \<Rightarrow> int list \<Rightarrow> int" where
  "dot a b = sum_list (map (\<lambda>(u, v). u * v) (zip a b))"

definition binary_vector :: "int list \<Rightarrow> bool" where
  "binary_vector a = list_all (\<lambda>v. v = 0 \<or> v = 1) a"

definition nonzero_vector :: "int list \<Rightarrow> bool" where
  "nonzero_vector a = list_ex (\<lambda>v. v \<noteq> 0) a"

text \<open>A feature matrix: every row has the same dimension.\<close>

definition feature_matrix :: "int list list \<Rightarrow> bool" where
  "feature_matrix x = list_all (\<lambda>r. length r = length (hd x)) x"

text \<open>
  The nearest other vector of row \<open>i\<close> under the sentinel: the first \<open>j\<close> in
  enumeration order, other than \<open>i\<close>, that lies below the sentinel distance 100 and is at
  least as near as every other row. There is none when no other row lies below the
  sentinel.
\<close>

definition nearest_other :: "int list list \<Rightarrow> nat \<Rightarrow> nat option" where
  "nearest_other x i =
     find (\<lambda>j. j \<noteq> i \<and> euc_dist (x ! i) (x ! j) < 100 \<and>
               (\<forall>k \<in> set [0..<length x]. k \<noteq> i \<longrightarrow> euc_dist (x ! i) (x ! j) \<le> euc_dist (x ! i) (x ! k)))
          [0..<length x]"

text \<open>
  The nearest other vector of row \<open>i\<close> with no sentinel: the first \<open>j\<close> in enumeration
  order, other than \<open>i\<close>, that is at least as near as every other row.
\<close>

definition nearest_neighbour :: "int list list \<Rightarrow> nat \<Rightarrow> nat option" where
  "nearest_neighbour x i =
     find (\<lambda>j. j \<noteq> i \<and>
               (\<forall>k \<in> set [0..<length x]. k \<noteq> i \<longrightarrow> euc_dist (x ! i) (x ! j) \<le> euc_dist (x ! i) (x ! k)))
          [0..<length x]"

text \<open>
  The arithmetic mean of a list of outcomes: there is none when one of them is an error,
  and it is nan for the empty list.
\<close>

definition mean_outcome :: "(error + real) list \<Rightarrow> error + npfloat" where
  "mean_outcome rs =
     (case collect rs of
        Inl e \<Rightarrow> Inl e
      | Inr vs \<Rightarrow> Inr (if vs = [] then Nan else Finite (sum_list vs / real (length vs))))"


section \<open>Auxiliary facts\<close>

subsection \<open>The agreement loop\<close>

text \<open>The loop returns the agreement count when the second vector is long enough, and
  fails at the first position the second vector lacks.\<close>

lemma intersection_loop_in_range:
  "\<forall>idx \<in> set idxs. idx < length b \<Longrightarrow>
   intersection_loop a b idxs c =
     Inr (c + int (length (filter (\<lambda>i. a ! i = b ! i \<and> a ! i \<noteq> 0) idxs)))"
  by (induction idxs arbitrary: c) (simp_all add: getitem_def)

lemma intersection_loop_out_of_range:
  "\<exists>idx \<in> set idxs. length b \<le> idx \<Longrightarrow> intersection_loop a b idxs c = Inl IndexError"
  by (induction idxs arbitrary: c) (auto simp add: getitem_def)

lemma zip_as_map_nth:
  "zip a b = map (\<lambda>i. (a ! i, b ! i)) [0..<min (length a) (length b)]"
  by (rule nth_equalityI) simp_all

lemma agree_count_positions:
  "length a \<le> length b \<Longrightarrow>
   agree_count a b = int (length (filter (\<lambda>i. a ! i = b ! i \<and> a ! i \<noteq> 0) [0..<length a]))"
  unfolding agree_count_def
  by (subst zip_as_map_nth) (simp add: filter_map comp_def min_absorb1)

lemma intersection_loop_agree:
  "length a \<le> length b \<Longrightarrow> intersection_loop a b [0..<length a] 0 = Inr (agree_count a b)"
  by (simp add: intersection_loop_in_range agree_count_positions)

lemma intersection_loop_short:
  "length b < length a \<Longrightarrow> intersection_loop a b [0..<length a] 0 = Inl IndexError"
  by (rule intersection_loop_out_of_range) (auto intro: bexI [of _ "length b"])

lemma euc_bit_eq:
  "euc_bit a b =
     (if length b < length a then Inl IndexError
      else Inr (sqrt (real_of_int (count_nonzero a + count_nonzero b - 2 * agree_count a b))))"
  by (simp add: euc_bit_def intersection_loop_agree intersection_loop_short)

lemma bit_tanimoto_eq:
  "bit_tanimoto a b =
     (if length b < length a then Inl IndexError
      else py_truediv (agree_count a b) (count_nonzero a + count_nonzero b - agree_count a b))"
  by (simp add: bit_tanimoto_def intersection_loop_agree intersection_loop_short)

lemma agree_count_le_left: "agree_count a b \<le> count_nonzero a"
  unfolding agree_count_def count_nonzero_def
proof (induction a arbitrary: b)
  case Nil
  then show ?case by simp
next
  case (Cons u a)
  show ?case
  proof (cases b)
    case Nil
    then show ?thesis by simp
  next
    case (Cons v b')
    with Cons.IH [of b'] show ?thesis by auto
  qed
qed

lemma agree_count_le_right: "agree_count a b \<le> count_nonzero b"
  unfolding agree_count_def count_nonzero_def
proof (induction a arbitrary: b)
  case Nil
  then show ?case by simp
next
  case (Cons u a)
  show ?case
  proof (cases b)
    case Nil
    then show ?thesis by simp
  next
    case (Cons v b')
    with Cons.IH [of b'] show ?thesis by auto
  qed
qed

lemma agree_count_self: "agree_count a a = count_nonzero a"
  unfolding agree_count_def count_nonzero_def
  by (induction a) auto

subsection \<open>Dot products and the Tanimoto quotients\<close>

lemma np_mul_same_length:
  "length a = length b \<Longrightarrow> np_mul a b = Inr (map (\<lambda>(u, v). u * v) (zip a b))"
  by (simp add: np_mul_def broadcast_pairs_def)

lemma dot_commute: "dot a b = dot b a"
proof -
  have "map (\<lambda>(u, v). u * v) (zip a b) = map (\<lambda>(u, v). u * v) (zip b a)"
    by (rule nth_equalityI) (simp_all add: mult.commute)
  then show ?thesis by (simp add: dot_def)
qed

lemma dot_self: "dot a a = sum_list (map (\<lambda>v. v ^ 2) a)"
  by (induction a) (simp_all add: dot_def power2_eq_square)

lemma sum_squares_nonneg: "0 \<le> sum_list (map (\<lambda>v. v ^ 2) (a :: int list))"
  by (induction a) simp_all

lemma sum_squares_pos:
  "nonzero_vector a \<Longrightarrow> 0 < sum_list (map (\<lambda>v. v ^ 2) a)"
  unfolding nonzero_vector_def
proof (induction a)
  case Nil
  then show ?case by simp
next
  case (Cons v a)
  have "0 \<le> v ^ 2" by simp
  show ?case
  proof (cases "v = 0")
    case True
    with Cons show ?thesis by simp
  next
    case False
    then have "0 < v ^ 2" by simp
    then have "0 < v ^ 2 + sum_list (map (\<lambda>v. v ^ 2) a)"
      using sum_squares_nonneg [of a] by (rule add_pos_nonneg)
    then show ?thesis by simp
  qed
qed

lemma count_nonzero_pos: "nonzero_vector a \<Longrightarrow> 0 < count_nonzero a"
  unfolding nonzero_vector_def count_nonzero_def
  by (induction a) auto

lemma tanimoto_self: "nonzero_vector a \<Longrightarrow> tanimoto a a = Inr (Finite 1)"
  using sum_squares_pos [of a]
  by (simp add: tanimoto_def np_mul_same_length dot_def [symmetric] dot_self sum_truediv_def)

lemma bit_tanimoto_self: "nonzero_vector a \<Longrightarrow> bit_tanimoto a a = Inr 1"
  using count_nonzero_pos [of a]
  by (simp add: bit_tanimoto_eq agree_count_self py_truediv_def)

lemma modified_tanimoto_eq:
  "length a = length b \<Longrightarrow>
   modified_tanimoto a b =
     (let n = int (length a);
          n_11 = dot a b;
          n_00 = dot (map (\<lambda>v. 1 - v) a) (map (\<lambda>v. 1 - v) b);
          t_1 = (if n_00 = n then 1 else real_of_int n_11 / real_of_int (n - n_00));
          t_0 = (if n_11 = n then 1 else real_of_int n_00 / real_of_int (n - n_11));
          p = real_of_int ((n - n_00) + n_11) / real_of_int (2 * n)
      in if n = 0 then Inl ZeroDivisionError
         else Inr (((2 - p) / 3) * t_1 + ((1 + p) / 3) * t_0))"
  by (simp add: modified_tanimoto_def np_mul_same_length dot_def Let_def py_truediv_def)

lemma modified_tanimoto_commute:
  "length a = length b \<Longrightarrow> modified_tanimoto a b = modified_tanimoto b a"
  by (simp add: modified_tanimoto_eq dot_commute [of a b]
      dot_commute [of "map (\<lambda>v. 1 - v) a" "map (\<lambda>v. 1 - v) b"] Let_def)

lemma modified_tanimoto_returns:
  "length a = length b \<Longrightarrow> a \<noteq> [] \<Longrightarrow> \<exists>v. modified_tanimoto a b = Inr v"
  by (auto simp add: modified_tanimoto_eq Let_def)

subsection \<open>The condensed vector and its square form\<close>

lemma collect_map_Inr:
  "(\<And>x. x \<in> set xs \<Longrightarrow> f x = Inr (g x)) \<Longrightarrow> collect (map f xs) = Inr (map g xs)"
  by (induction xs) simp_all

lemma collect_length: "collect rs = Inr vs \<Longrightarrow> length vs = length rs"
  by (induction rs arbitrary: vs) (auto split: sum.splits)

lemma zip_map_same: "zip (map f xs) (map g xs) = map (\<lambda>x. (f x, g x)) xs"
  by (induction xs) simp_all

lemma fl_add_zero: "fl_add u (Finite 0) = u"
  by (cases u) simp_all

lemma fl_eq_same: "fl_eq u u \<longleftrightarrow> u \<noteq> Nan"
  by (cases u) simp_all

lemma np_add_square:
  "np_add (map (\<lambda>i. map (\<lambda>j. F i j) [0..<n]) [0..<n]) (map (\<lambda>i. map (\<lambda>j. G i j) [0..<n]) [0..<n])
     = Inr (map (\<lambda>i. map (\<lambda>j. fl_add (F i j) (G i j)) [0..<n]) [0..<n])"
proof -
  have rows: "broadcast_pairs (map (\<lambda>i. map (\<lambda>j. F i j) [0..<n]) [0..<n])
                (map (\<lambda>i. map (\<lambda>j. G i j) [0..<n]) [0..<n])
              = Inr (map (\<lambda>i. (map (\<lambda>j. F i j) [0..<n], map (\<lambda>j. G i j) [0..<n])) [0..<n])"
    by (simp add: broadcast_pairs_def zip_map_same)
  show ?thesis
    unfolding np_add_def rows
    by (simp add: comp_def broadcast_pairs_def zip_map_same collect_map_Inr
        [where g = "\<lambda>i. map (\<lambda>j. fl_add (F i j) (G i j)) [0..<n]"])
qed

lemma length_pair_indices: "2 * length (pair_indices n) = n * (n - 1)"
proof -
  have "length (pair_indices n) = (\<Sum>i<n. n - Suc i)"
    by (simp add: pair_indices_def length_concat comp_def sum_list_sum_nth atLeast0LessThan)
  also have "\<dots> = (\<Sum>i<n. i)"
    by (rule sum.nat_diff_reindex)
  finally have "length (pair_indices n) = (\<Sum>i<n. i)" .
  moreover have "2 * (\<Sum>i<n. i) = n * (n - 1)"
    by (induction n) (auto simp add: algebra_simps)
  ultimately show ?thesis by simp
qed

lemma ceil_sqrt_unique:
  assumes "m \<le> d * d" and "\<forall>j<d. j * j < m"
  shows "ceil_sqrt m = d"
proof -
  have "d \<le> m"
  proof (cases d)
    case 0
    then show ?thesis by simp
  next
    case (Suc k)
    with assms(2) have "k * k < m" by simp
    moreover have "k \<le> k * k" by (cases k) simp_all
    ultimately show ?thesis using Suc by linarith
  qed
  then have "find (\<lambda>d. m \<le> d * d) [0..<Suc m] = Some d"
    unfolding find_Some_iff
    using assms by (intro exI [of _ d]) (auto simp add: not_le simp del: upt_Suc)
  then show ?thesis by (simp add: ceil_sqrt_def)
qed

lemma ceil_sqrt_pairs: "2 \<le> n \<Longrightarrow> ceil_sqrt (n * (n - 1)) = n"
proof (rule ceil_sqrt_unique)
  assume n: "2 \<le> n"
  show "n * (n - 1) \<le> n * n" by simp
  show "\<forall>j<n. j * j < n * (n - 1)"
  proof (intro allI impI)
    fix j assume "j < n"
    then have "j \<le> n - 1" by simp
    then have "j * j \<le> (n - 1) * (n - 1)" by (simp add: mult_le_mono)
    also have "\<dots> < n * (n - 1)" using n by simp
    finally show "j * j < n * (n - 1)" .
  qed
qed

lemma squareform_plus_identity:
  assumes len: "2 * length v = n * (n - 1)"
  shows "(case squareform v of Inl e \<Rightarrow> Inl e | Inr sq \<Rightarrow> np_add sq (identity n)) =
         Inr (map (\<lambda>i. map (\<lambda>j. if i = j then Finite 1
                                 else v ! condensed_index n (min i j) (max i j))
                        [0..<n]) [0..<n])"
proof -
  consider "n = 0" | "n = 1" | "2 \<le> n" by linarith
  then show ?thesis
  proof cases
    case 1
    with len show ?thesis
      by (simp add: squareform_def identity_def np_add_def broadcast_pairs_def)
  next
    case 2
    with len show ?thesis
      by (simp add: squareform_def identity_def np_add_def broadcast_pairs_def)
  next
    case 3
    then have "0 < n * (n - 1)" by simp
    with len have pos: "length v \<noteq> 0" by auto
    have d: "ceil_sqrt (2 * length v) = n"
      using ceil_sqrt_pairs [OF 3] len by simp
    have sq: "squareform v =
        Inr (map (\<lambda>i. map (\<lambda>j. if i = j then Finite 0
                                 else v ! condensed_index n (min i j) (max i j))
                        [0..<n]) [0..<n])"
      unfolding squareform_def Let_def d using pos len by simp
    have "np_add (map (\<lambda>i. map (\<lambda>j. if i = j then Finite 0
                                       else v ! condensed_index n (min i j) (max i j))
                        [0..<n]) [0..<n]) (identity n) =
          Inr (map (\<lambda>i. map (\<lambda>j. fl_add (if i = j then Finite 0
                                           else v ! condensed_index n (min i j) (max i j))
                                          (if i = j then Finite 1 else Finite 0)) [0..<n]) [0..<n])"
      unfolding identity_def by (rule np_add_square)
    also have "(\<lambda>i. map (\<lambda>j. fl_add (if i = j then Finite 0
                                           else v ! condensed_index n (min i j) (max i j))
                                          (if i = j then Finite 1 else Finite 0)) [0..<n])
             = (\<lambda>i. map (\<lambda>j. if i = j then Finite 1
                                 else v ! condensed_index n (min i j) (max i j)) [0..<n])"
      by (intro ext map_cong) (simp_all add: fl_add_zero)
    finally show ?thesis by (simp add: sq)
  qed
qed

subsection \<open>The scan for the nearest row\<close>

text \<open>The invariant of the inner loop: after the rows below \<open>n\<close> the state is still the
  initial one and no row so far lies below the sentinel, or it holds the first row of least
  distance among those seen.\<close>

lemma feature_matrix_rows:
  "feature_matrix x \<Longrightarrow> i < length x \<Longrightarrow> j < length x \<Longrightarrow> length (x ! i) = length (x ! j)"
  by (simp add: feature_matrix_def list_all_length)

lemma euc_bit_rows:
  "feature_matrix x \<Longrightarrow> i < length x \<Longrightarrow> j < length x \<Longrightarrow>
   euc_bit (x ! i) (x ! j) = Inr (euc_dist (x ! i) (x ! j))"
  using feature_matrix_rows [of x i j] by (simp add: euc_bit_eq euc_dist_def)

lemma nearest_scan_append:
  "nearest_scan x i (js @ ks) st =
     (case nearest_scan x i js st of Inl e \<Rightarrow> Inl e | Inr st' \<Rightarrow> nearest_scan x i ks st')"
proof (induction js arbitrary: st)
  case Nil
  then show ?case by simp
next
  case (Cons j js)
  obtain s a b where st: "st = (s, a, b)" by (cases st)
  show ?case unfolding st by (simp add: Cons.IH split: sum.splits)
qed

lemma nearest_scan_single:
  "feature_matrix x \<Longrightarrow> i < length x \<Longrightarrow> j < length x \<Longrightarrow>
   nearest_scan x i [j] (s, a, b) =
     Inr (if euc_dist (x ! i) (x ! j) < s \<and> i \<noteq> j then (euc_dist (x ! i) (x ! j), i, j) else (s, a, b))"
  by (simp add: euc_bit_rows)

lemma nearest_scan_invariant:
  assumes fm: "feature_matrix x" and i: "i < length x" and n: "n \<le> length x"
  shows "\<exists>st. nearest_scan x i [0..<n] (100, 0, 0) = Inr st \<and>
           ((st = (100, 0, 0) \<and> (\<forall>j<n. j \<noteq> i \<longrightarrow> \<not> euc_dist (x ! i) (x ! j) < 100)) \<or>
            (\<exists>j<n. j \<noteq> i \<and> euc_dist (x ! i) (x ! j) < 100 \<and> st = (euc_dist (x ! i) (x ! j), i, j) \<and>
                (\<forall>k<n. k \<noteq> i \<longrightarrow> euc_dist (x ! i) (x ! j) \<le> euc_dist (x ! i) (x ! k)) \<and>
                (\<forall>k<j. k \<noteq> i \<longrightarrow> euc_dist (x ! i) (x ! j) < euc_dist (x ! i) (x ! k))))"
  using n
proof (induction n)
  case 0
  then show ?case by simp
next
  case (Suc n)
  define D where "D j = euc_dist (x ! i) (x ! j)" for j
  from Suc.prems have n: "n < length x" by simp
  from Suc.IH n obtain st where
    run: "nearest_scan x i [0..<n] (100, 0, 0) = Inr st" and
    inv: "(st = (100, 0, 0) \<and> (\<forall>j<n. j \<noteq> i \<longrightarrow> \<not> D j < 100)) \<or>
          (\<exists>j<n. j \<noteq> i \<and> D j < 100 \<and> st = (D j, i, j) \<and>
                (\<forall>k<n. k \<noteq> i \<longrightarrow> D j \<le> D k) \<and> (\<forall>k<j. k \<noteq> i \<longrightarrow> D j < D k))"
    unfolding D_def by auto
  obtain s a b where st: "st = (s, a, b)" by (cases st)
  let ?st' = "if D n < s \<and> i \<noteq> n then (D n, i, n) else (s, a, b)"
  have step: "nearest_scan x i [0..<Suc n] (100, 0, 0) = Inr ?st'"
    using nearest_scan_single [OF fm i n, of s a b]
    by (simp add: nearest_scan_append run st D_def)
  from inv have "(?st' = (100, 0, 0) \<and> (\<forall>j<Suc n. j \<noteq> i \<longrightarrow> \<not> D j < 100)) \<or>
          (\<exists>j<Suc n. j \<noteq> i \<and> D j < 100 \<and> ?st' = (D j, i, j) \<and>
                (\<forall>k<Suc n. k \<noteq> i \<longrightarrow> D j \<le> D k) \<and> (\<forall>k<j. k \<noteq> i \<longrightarrow> D j < D k))"
  proof
    assume none: "st = (100, 0, 0) \<and> (\<forall>j<n. j \<noteq> i \<longrightarrow> \<not> D j < 100)"
    with st have s: "s = 100" "a = 0" "b = 0" by simp_all
    show ?thesis
    proof (cases "D n < 100 \<and> i \<noteq> n")
      case True
      have "\<forall>k<Suc n. k \<noteq> i \<longrightarrow> D n \<le> D k"
        using none True by (auto simp add: less_Suc_eq not_less) 
      moreover have "\<forall>k<n. k \<noteq> i \<longrightarrow> D n < D k"
        using none True by (auto simp add: not_less)
      ultimately show ?thesis using True s by (intro disjI2 exI [of _ n]) auto
    next
      case False
      then show ?thesis using none s by (auto simp add: less_Suc_eq)
    qed
  next
    assume "\<exists>j<n. j \<noteq> i \<and> D j < 100 \<and> st = (D j, i, j) \<and>
                (\<forall>k<n. k \<noteq> i \<longrightarrow> D j \<le> D k) \<and> (\<forall>k<j. k \<noteq> i \<longrightarrow> D j < D k)"
    then obtain j where j: "j < n" "j \<noteq> i" "D j < 100" "st = (D j, i, j)"
      and least: "\<forall>k<n. k \<noteq> i \<longrightarrow> D j \<le> D k" and first: "\<forall>k<j. k \<noteq> i \<longrightarrow> D j < D k"
      by blast
    from j(4) st have s: "s = D j" "a = i" "b = j" by simp_all
    show ?thesis
    proof (cases "D n < D j \<and> i \<noteq> n")
      case True
      have "\<forall>k<Suc n. k \<noteq> i \<longrightarrow> D n \<le> D k"
        using least True by (auto simp add: less_Suc_eq intro: less_imp_le less_le_trans)
      moreover have "\<forall>k<n. k \<noteq> i \<longrightarrow> D n < D k"
        using least True by (auto intro: less_le_trans)
      moreover have "D n < 100" using True j(3) by simp
      ultimately show ?thesis using True s by (intro disjI2 exI [of _ n]) auto
    next
      case False
      have "\<forall>k<Suc n. k \<noteq> i \<longrightarrow> D j \<le> D k"
        using least False by (auto simp add: less_Suc_eq not_less)
      then show ?thesis using False s j first by (intro disjI2 exI [of _ j]) auto
    qed
  qed
  with step show ?case unfolding D_def by blast
qed

lemma nearest_scan_result:
  assumes fm: "feature_matrix x" and i: "i < length x"
  shows "nearest_scan x i [0..<length x] (100, 0, 0) =
           Inr (case nearest_other x i of
                  None \<Rightarrow> (100, 0, 0)
                | Some j \<Rightarrow> (euc_dist (x ! i) (x ! j), i, j))"
proof -
  define D where "D j = euc_dist (x ! i) (x ! j)" for j
  define P where "P j \<longleftrightarrow> j \<noteq> i \<and> D j < 100 \<and> (\<forall>k \<in> set [0..<length x]. k \<noteq> i \<longrightarrow> D j \<le> D k)" for j
  have other: "nearest_other x i = find P [0..<length x]"
    unfolding nearest_other_def P_def D_def ..
  from nearest_scan_invariant [OF fm i le_refl] obtain st where
    run: "nearest_scan x i [0..<length x] (100, 0, 0) = Inr st" and
    inv: "(st = (100, 0, 0) \<and> (\<forall>j<length x. j \<noteq> i \<longrightarrow> \<not> D j < 100)) \<or>
          (\<exists>j<length x. j \<noteq> i \<and> D j < 100 \<and> st = (D j, i, j) \<and>
                (\<forall>k<length x. k \<noteq> i \<longrightarrow> D j \<le> D k) \<and> (\<forall>k<j. k \<noteq> i \<longrightarrow> D j < D k))"
    unfolding D_def by auto
  from inv show ?thesis
  proof
    assume none: "st = (100, 0, 0) \<and> (\<forall>j<length x. j \<noteq> i \<longrightarrow> \<not> D j < 100)"
    then have "find P [0..<length x] = None"
      by (auto simp add: find_None_iff P_def)
    with none run other show ?thesis by simp
  next
    assume "\<exists>j<length x. j \<noteq> i \<and> D j < 100 \<and> st = (D j, i, j) \<and>
                (\<forall>k<length x. k \<noteq> i \<longrightarrow> D j \<le> D k) \<and> (\<forall>k<j. k \<noteq> i \<longrightarrow> D j < D k)"
    then obtain j where j: "j < length x" "j \<noteq> i" "D j < 100" "st = (D j, i, j)"
      and least: "\<forall>k<length x. k \<noteq> i \<longrightarrow> D j \<le> D k" and first: "\<forall>k<j. k \<noteq> i \<longrightarrow> D j < D k"
      by blast
    have "P j" using j least by (simp add: P_def)
    moreover have "\<not> P k" if "k < j" for k
    proof
      assume "P k"
      then have "k \<noteq> i" and "D k \<le> D j" using j by (auto simp add: P_def)
      with first that show False by auto
    qed
    ultimately have "find P [0..<length x] = Some j"
      unfolding find_Some_iff using j(1) by (intro exI [of _ j]) auto
    with j run other show ?thesis by (simp add: D_def)
  qed
qed

lemma nearest_tanimoto_eq:
  assumes "feature_matrix x" and "i < length x"
  shows "nearest_tanimoto x i =
           (case nearest_other x i of
              None \<Rightarrow> bit_tanimoto (x ! 0) (x ! 0)
            | Some j \<Rightarrow> bit_tanimoto (x ! i) (x ! j))"
  by (simp add: nearest_tanimoto_def nearest_scan_result [OF assms] split: option.splits)

lemma collect_all_values:
  "\<forall>r \<in> set rs. \<exists>v. r = Inr v \<Longrightarrow> \<exists>vs. collect rs = Inr vs"
  by (induction rs) auto

lemma pair_indices_ordered: "(i, j) \<in> set (pair_indices n) \<Longrightarrow> i < j \<and> j < n"
  by (auto simp add: pair_indices_def)

lemma pairwise_similarity_bit_closed_form:
  assumes "collect (map (\<lambda>(i, j). metric (feature ! i) (feature ! j))
             (pair_indices (length feature))) = Inr v"
  shows "pairwise_similarity_bit feature metric =
           Inr (map (\<lambda>i. map (\<lambda>j. if i = j then Finite 1
                                   else v ! condensed_index (length feature) (min i j) (max i j))
                          [0..<length feature]) [0..<length feature])"
proof -
  from assms have "length v = length (pair_indices (length feature))"
    by (simp add: collect_length)
  then have "2 * length v = length feature * (length feature - 1)"
    by (simp only: length_pair_indices)
  then show ?thesis
    unfolding pairwise_similarity_bit_def Let_def
    by (simp only: assms sum.case squareform_plus_identity)
qed

lemma pairwise_similarity_bit_error:
  assumes "collect (map (\<lambda>(i, j). metric (feature ! i) (feature ! j))
             (pair_indices (length feature))) = Inl e"
  shows "pairwise_similarity_bit feature metric = Inl e"
  unfolding pairwise_similarity_bit_def Let_def by (simp only: assms sum.case)

lemma compute_distance_matrix_cases:
  "compute_distance_matrix sk pd features metric nj faf kw =
     (if metric \<in> set sk then pd features metric nj faf kw
      else if metric = ''tanimoto'' \<or> metric = ''modified_tanimoto'' then Inl (TypeError [''b''])
      else Inl (ValueError (''Metric '' @ metric @ '' is not supported by the library.'')))"
  by (auto simp add: compute_distance_matrix_def built_in_metrics_def function_dict_def
      call_with_one_argument_def)

lemma pairwise_tanimoto_example:
  "pairwise_similarity_bit [[1, 0], [1, 1]] tanimoto =
     Inr [[Finite 1, Finite (1 / 2)], [Finite (1 / 2), Finite 1]]"
proof -
  have "collect (map (\<lambda>(i, j). tanimoto ([[1, 0], [1, 1]] ! i) ([[1, 0], [1, 1]] ! j))
          (pair_indices (length [[1, 0], [1, 1 :: int]]))) = Inr [Finite (1 / 2)]"
    by (simp add: pair_indices_def tanimoto_def np_mul_def broadcast_pairs_def sum_truediv_def)
  from pairwise_similarity_bit_closed_form [OF this] show ?thesis
    by (simp add: condensed_index_def)
qed

lemma pairwise_tanimoto_zero_rows:
  "pairwise_similarity_bit [[0, 0], [0, 0]] tanimoto = Inr [[Finite 1, Nan], [Nan, Finite 1]]"
proof -
  have "collect (map (\<lambda>(i, j). tanimoto ([[0, 0], [0, 0]] ! i) ([[0, 0], [0, 0]] ! j))
          (pair_indices (length [[0, 0], [0, 0 :: int]]))) = Inr [Nan]"
    by (simp add: pair_indices_def tanimoto_def np_mul_def broadcast_pairs_def sum_truediv_def)
  from pairwise_similarity_bit_closed_form [OF this] show ?thesis
    by (simp add: condensed_index_def)
qed

lemma nearest_other_None_iff:
  "nearest_other x i = None \<longleftrightarrow>
     (\<forall>j<length x. j \<noteq> i \<longrightarrow> \<not> euc_dist (x ! i) (x ! j) < 100)"
proof
  assume none: "nearest_other x i = None"
  show "\<forall>j<length x. j \<noteq> i \<longrightarrow> \<not> euc_dist (x ! i) (x ! j) < 100"
  proof (rule ccontr)
    assume "\<not> (\<forall>j<length x. j \<noteq> i \<longrightarrow> \<not> euc_dist (x ! i) (x ! j) < 100)"
    then have ex: "\<exists>j. j \<in> {j. j < length x \<and> j \<noteq> i} \<and> euc_dist (x ! i) (x ! j) < 100"
      by blast
    define S where "S = {j. j < length x \<and> j \<noteq> i}"
    have "finite S" and "S \<noteq> {}" using ex by (auto simp add: S_def)
    then obtain m where m: "m \<in> S" and least: "\<forall>k \<in> S. euc_dist (x ! i) (x ! m) \<le> euc_dist (x ! i) (x ! k)"
      using ex_min_if_finite [of "(\<lambda>j. euc_dist (x ! i) (x ! j)) ` S"]
      by (auto simp add: not_less)
    from ex obtain j where "j \<in> S" and "euc_dist (x ! i) (x ! j) < 100" by (auto simp add: S_def)
    with least have "euc_dist (x ! i) (x ! m) < 100" by force
    with m least none show False
      by (auto simp add: nearest_other_def find_None_iff S_def)
  qed
next
  assume "\<forall>j<length x. j \<noteq> i \<longrightarrow> \<not> euc_dist (x ! i) (x ! j) < 100"
  then show "nearest_other x i = None"
    by (auto simp add: nearest_other_def find_None_iff)
qed

text \<open>What \<open>nearest_other\<close> selects: the row of least distance among the others, below the
  sentinel, and the first such row in enumeration order.\<close>

lemma nearest_other_Some_iff:
  "nearest_other x i = Some j \<longleftrightarrow>
     j < length x \<and> j \<noteq> i \<and> euc_dist (x ! i) (x ! j) < 100 \<and>
     (\<forall>k<length x. k \<noteq> i \<longrightarrow> euc_dist (x ! i) (x ! j) \<le> euc_dist (x ! i) (x ! k)) \<and>
     (\<forall>k<j. k \<noteq> i \<longrightarrow> euc_dist (x ! i) (x ! j) < euc_dist (x ! i) (x ! k))"
proof -
  define D where "D j = euc_dist (x ! i) (x ! j)" for j
  define P where "P j \<longleftrightarrow> j \<noteq> i \<and> D j < 100 \<and> (\<forall>k \<in> set [0..<length x]. k \<noteq> i \<longrightarrow> D j \<le> D k)" for j
  have other: "nearest_other x i = find P [0..<length x]"
    unfolding nearest_other_def P_def D_def ..
  have found: "find P [0..<length x] = Some j \<longleftrightarrow> j < length x \<and> P j \<and> (\<forall>k<j. \<not> P k)"
    unfolding find_Some_iff by auto
  have "(\<forall>k<j. \<not> P k) \<longleftrightarrow> (\<forall>k<j. k \<noteq> i \<longrightarrow> D j < D k)" if j: "j < length x" "P j"
  proof
    assume first: "\<forall>k<j. \<not> P k"
    show "\<forall>k<j. k \<noteq> i \<longrightarrow> D j < D k"
    proof (intro allI impI)
      fix k assume k: "k < j" "k \<noteq> i"
      show "D j < D k"
      proof (rule ccontr)
        assume "\<not> D j < D k"
        then have le: "D k \<le> D j" by simp
        with j have "D k < 100" by (simp add: P_def)
        moreover have "\<forall>m \<in> set [0..<length x]. m \<noteq> i \<longrightarrow> D k \<le> D m"
          using j le by (auto simp add: P_def intro: order_trans)
        ultimately have "P k" using k by (simp add: P_def)
        with first k show False by simp
      qed
    qed
  next
    assume first: "\<forall>k<j. k \<noteq> i \<longrightarrow> D j < D k"
    show "\<forall>k<j. \<not> P k"
    proof (intro allI impI notI)
      fix k assume "k < j" and "P k"
      then have "k \<noteq> i" and "D k \<le> D j" using j by (auto simp add: P_def)
      with first \<open>k < j\<close> show False by auto
    qed
  qed
  then have "find P [0..<length x] = Some j \<longleftrightarrow>
      j < length x \<and> P j \<and> (\<forall>k<j. k \<noteq> i \<longrightarrow> D j < D k)"
    unfolding found by blast
  moreover have "P j \<longleftrightarrow> j \<noteq> i \<and> D j < 100 \<and> (\<forall>k<length x. k \<noteq> i \<longrightarrow> D j \<le> D k)"
    by (auto simp add: P_def)
  ultimately show ?thesis
    unfolding other D_def by blast
qed

lemma nearest_average_tanimoto_eq:
  assumes "feature_matrix x"
  shows "nearest_average_tanimoto x =
           mean_outcome (map (\<lambda>i. case nearest_other x i of
                                     None \<Rightarrow> bit_tanimoto (x ! 0) (x ! 0)
                                   | Some j \<Rightarrow> bit_tanimoto (x ! i) (x ! j)) [0..<length x])"
proof -
  have "map (nearest_tanimoto x) [0..<length x] =
        map (\<lambda>i. case nearest_other x i of
                    None \<Rightarrow> bit_tanimoto (x ! 0) (x ! 0)
                  | Some j \<Rightarrow> bit_tanimoto (x ! i) (x ! j)) [0..<length x]"
    by (rule map_cong) (simp_all add: nearest_tanimoto_eq [OF assms])
  then show ?thesis
    unfolding nearest_average_tanimoto_def mean_outcome_def np_average_def
    by (simp only:)
qed

lemma sqrt_less_sentinel: "sqrt v < 100 \<longleftrightarrow> v < 10000"
proof -
  have "sqrt 10000 = 100"
    using real_sqrt_abs [of 100] by simp
  then have "sqrt v < 100 \<longleftrightarrow> sqrt v < sqrt 10000" by simp
  then show ?thesis by (simp only: real_sqrt_less_iff)
qed

text \<open>
  Where every row has another row below the sentinel, the result is the mean of
  \<open>bit_tanimoto\<close> over the rows and their nearest other rows.
\<close>

lemma nearest_average_tanimoto_below_sentinel:
  assumes "feature_matrix x"
    and "\<forall>i<length x. nearest_other x i = Some (nn i)"
  shows "nearest_average_tanimoto x =
           mean_outcome (map (\<lambda>i. bit_tanimoto (x ! i) (x ! nn i)) [0..<length x])"
proof -
  have "map (\<lambda>i. case nearest_other x i of
                    None \<Rightarrow> bit_tanimoto (x ! 0) (x ! 0)
                  | Some j \<Rightarrow> bit_tanimoto (x ! i) (x ! j)) [0..<length x] =
        map (\<lambda>i. bit_tanimoto (x ! i) (x ! nn i)) [0..<length x]"
    by (rule map_cong) (simp_all add: assms(2))
  then show ?thesis
    by (simp only: nearest_average_tanimoto_eq [OF assms(1)])
qed

lemma nearest_other_below_sentinel:
  assumes "nearest_other x i = Some j"
  shows "nearest_neighbour x i = Some j"
proof -
  define D where "D j = euc_dist (x ! i) (x ! j)" for j
  from assms have j: "j < length x" "j \<noteq> i"
      "\<forall>k<length x. k \<noteq> i \<longrightarrow> D j \<le> D k" "\<forall>k<j. k \<noteq> i \<longrightarrow> D j < D k"
    unfolding D_def by (simp_all add: nearest_other_Some_iff)
  have "\<not> (k \<noteq> i \<and> (\<forall>m \<in> set [0..<length x]. m \<noteq> i \<longrightarrow> D k \<le> D m))" if "k < j" for k
  proof
    assume k: "k \<noteq> i \<and> (\<forall>m \<in> set [0..<length x]. m \<noteq> i \<longrightarrow> D k \<le> D m)"
    with j(1,2) have "D k \<le> D j" by simp
    moreover from j(4) that k have "D j < D k" by simp
    ultimately show False by simp
  qed
  then show ?thesis
    unfolding nearest_neighbour_def find_Some_iff D_def [symmetric]
    using j(1-3) by (intro exI [of _ j]) auto
qed

lemma far_rows_distance:
  "euc_dist (replicate 10000 1) (replicate 10000 0) = 100"
  "euc_dist (replicate 10000 0) (replicate 10000 1) = 100"
  using real_sqrt_abs [of 100]
  by (simp_all add: euc_dist_def count_nonzero_def agree_count_def)

lemma far_rows_average:
  "nearest_average_tanimoto [replicate 10000 1, replicate 10000 0] = Inr (Finite 1)"
proof -
  let ?x = "[replicate 10000 1, replicate 10000 (0 :: int)]"
  have fm: "feature_matrix ?x" by (simp add: feature_matrix_def)
  have none: "nearest_other ?x 0 = None" "nearest_other ?x (Suc 0) = None"
    by (simp_all add: nearest_other_None_iff less_Suc_eq far_rows_distance)
  have self: "bit_tanimoto (replicate 10000 1) (replicate 10000 1) = Inr 1"
    by (simp add: bit_tanimoto_eq count_nonzero_def agree_count_def py_truediv_def)
  show ?thesis
    unfolding nearest_average_tanimoto_eq [OF fm]
    by (simp add: none self mean_outcome_def)
qed

text \<open>
  The scenario of three 3-bit vectors: row 0 pairs with row 1, row 1 with row 0 and row 2
  with row 0, the first of its two neighbours to be found nearest.
\<close>

lemma nearest_average_tanimoto_scenario:
  "nearest_average_tanimoto [[1, 0, 0], [1, 1, 0], [0, 0, 1]] = Inr (Finite (1 / 3))"
proof -
  let ?x = "[[1, 0, 0], [1, 1, 0], [0, 0, 1 :: int]]"
  have fm: "feature_matrix ?x" by (simp add: feature_matrix_def)
  have d01: "euc_dist [1, 0, 0] [1, 1, 0] = 1" and d10: "euc_dist [1, 1, 0] [1, 0, 0] = 1"
    and d02: "euc_dist [1, 0, 0] [0, 0, 1] = sqrt 2" and d20: "euc_dist [0, 0, 1] [1, 0, 0] = sqrt 2"
    and d12: "euc_dist [1, 1, 0] [0, 0, 1] = sqrt 3" and d21: "euc_dist [0, 0, 1] [1, 1, 0] = sqrt 3"
    and d00: "euc_dist [1, 0, 0] [1, 0, 0] = 0" and d11: "euc_dist [1, 1, 0] [1, 1, 0] = 0"
    and d22: "euc_dist [0, 0, 1] [0, 0, 1] = 0"
    by (simp_all add: euc_dist_def count_nonzero_def agree_count_def)
  have upt3: "[0..<3] = [0, 1, 2]" by (simp add: upt_rec)
  have n0: "nearest_other ?x 0 = Some 1"
    by (simp add: nearest_other_def upt3 d00 d01 d02 sqrt_less_sentinel)
  have n1: "nearest_other ?x 1 = Some 0"
    by (simp add: nearest_other_def upt3 d10 d11 d12 sqrt_less_sentinel)
  have n2: "nearest_other ?x 2 = Some 0"
    by (simp add: nearest_other_def upt3 d20 d21 d22 sqrt_less_sentinel)
  have nn: "\<forall>i<length ?x. nearest_other ?x i = Some (if i = 0 then 1 else 0)"
    using n0 n1 n2 by (auto simp add: less_Suc_eq numeral_3_eq_3 numeral_2_eq_2)
  have "mean_outcome (map (\<lambda>i. bit_tanimoto (?x ! i) (?x ! (if i = 0 then 1 else 0))) [0..<length ?x])
          = Inr (Finite (1 / 3))"
    by (simp add: upt3 mean_outcome_def bit_tanimoto_eq py_truediv_def count_nonzero_def agree_count_def)
  with nearest_average_tanimoto_below_sentinel [OF fm nn] show ?thesis
    by simp
qed

subsection \<open>Entries of the square form\<close>

text \<open>The pair \<open>(i, j)\<close> sits at its condensed index, so the entry \<open>(i, j)\<close> of the
  returned matrix is the metric of rows \<open>i\<close> and \<open>j\<close>.\<close>

lemma nth_concat_offset:
  "i < length xss \<Longrightarrow> k < length (xss ! i) \<Longrightarrow>
   concat xss ! (sum_list (map length (take i xss)) + k) = xss ! i ! k"
proof (induction xss arbitrary: i)
  case Nil
  then show ?case by simp
next
  case (Cons xs xss)
  show ?case
  proof (cases i)
    case 0
    with Cons.prems show ?thesis by (simp add: nth_append)
  next
    case (Suc i')
    with Cons.prems Cons.IH [of i'] show ?thesis
      by (simp add: nth_append add.assoc)
  qed
qed

lemma row_offset: "i \<le> n \<Longrightarrow> 2 * (\<Sum>k<i. n - Suc k) + i * (i + 1) = 2 * i * n"
proof (induction i)
  case 0
  then show ?case by simp
next
  case (Suc i)
  then have "2 * (\<Sum>k<i. n - Suc k) + i * (i + 1) = 2 * i * n" by simp
  moreover from Suc.prems have "n - Suc i + Suc i = n" by simp
  ultimately show ?case by (simp add: algebra_simps) 
qed

lemma condensed_index_offset:
  assumes "i \<le> n"
  shows "condensed_index n i j = (\<Sum>k<i. n - Suc k) + (j - i - 1)"
proof -
  have "even (i * (i + 1))" by simp
  then have "2 * ((i * (i + 1)) div 2) = i * (i + 1)" by (rule dvd_mult_div_cancel [OF _])
  with row_offset [OF assms] have "(\<Sum>k<i. n - Suc k) + (i * (i + 1)) div 2 = i * n"
    by linarith
  then show ?thesis by (simp add: condensed_index_def)
qed

lemma pair_indices_nth:
  assumes "i < j" and "j < n"
  shows "condensed_index n i j < length (pair_indices n) \<and>
         pair_indices n ! condensed_index n i j = (i, j)"
proof -
  let ?rows = "map (\<lambda>i. map (\<lambda>j. (i, j)) [i + 1..<n]) [0..<n]"
  from assms have i: "i < length ?rows" and k: "j - i - 1 < length (?rows ! i)" by simp_all
  have off: "sum_list (map length (take i ?rows)) = (\<Sum>k<i. n - Suc k)"
    using assms by (simp add: take_map comp_def sum_list_sum_nth atLeast0LessThan min_absorb2)
  have idx: "condensed_index n i j = sum_list (map length (take i ?rows)) + (j - i - 1)"
    unfolding off using assms by (intro condensed_index_offset) simp
  have "concat ?rows ! condensed_index n i j = ?rows ! i ! (j - i - 1)"
    unfolding idx using i k by (rule nth_concat_offset)
  also have "\<dots> = (i, j)" using assms by simp
  finally have val: "pair_indices n ! condensed_index n i j = (i, j)"
    by (simp add: pair_indices_def)
  have "length (concat ?rows) = sum_list (map length (take i ?rows)) + length (?rows ! i)
          + sum_list (map length (drop (Suc i) ?rows))"
    using i by (subst id_take_nth_drop [OF i]) (simp add: length_concat del: upt_Suc)
  with k have "condensed_index n i j < length (concat ?rows)" unfolding idx by linarith
  with val show ?thesis by (simp add: pair_indices_def)
qed

lemma collect_nth:
  "collect rs = Inr vs \<Longrightarrow> k < length rs \<Longrightarrow> rs ! k = Inr (vs ! k)"
proof (induction rs arbitrary: vs k)
  case Nil
  then show ?case by simp
next
  case (Cons r rs)
  then show ?case by (cases k) (auto split: sum.splits)
qed

lemma pairwise_similarity_bit_entries:
  assumes "pairwise_similarity_bit feature metric = Inr M"
    and "i < j" and "j < length feature"
  shows "metric (feature ! i) (feature ! j) = Inr (M ! i ! j)"
proof -
  let ?run = "collect (map (\<lambda>(i, j). metric (feature ! i) (feature ! j))
                (pair_indices (length feature)))"
  obtain v where v: "?run = Inr v"
  proof (cases ?run)
    case (Inl e)
    from pairwise_similarity_bit_error [OF this] assms(1) show ?thesis by simp
  next
    case (Inr v)
    then show ?thesis by (rule that)
  qed
  from pairwise_similarity_bit_closed_form [OF v] assms
  have M: "M ! i ! j = v ! condensed_index (length feature) i j"
    by (auto simp add: min_absorb1 max_absorb2)
  from pair_indices_nth [OF assms(2,3)]
  have k: "condensed_index (length feature) i j < length (pair_indices (length feature))"
    and p: "pair_indices (length feature) ! condensed_index (length feature) i j = (i, j)"
    by simp_all
  from collect_nth [OF v, of "condensed_index (length feature) i j"] k p
  show ?thesis by (simp add: M)
qed

lemma euc_bit_radicand_nonneg:
  "0 \<le> count_nonzero a + count_nonzero b - 2 * agree_count a b"
  using agree_count_le_left [of a b] agree_count_le_right [of a b] by linarith

section \<open>The claims\<close>

subsection \<open>Bit-vector metrics\<close>

text \<open>
  C5. For vectors \<open>a\<close>, \<open>b\<close> of equal length, with \<open>c\<close> the number of positions at
  which they agree on a nonzero value, \<open>euc_bit\<close> returns
  \<open>sqrt(count_nonzero(a) + count_nonzero(b) - 2c)\<close> and \<open>bit_tanimoto\<close> is the quotient
  \<open>c / (count_nonzero(a) + count_nonzero(b) - c)\<close>; where that divisor is zero (both
  vectors all zero) the quotient does not exist and the call raises ZeroDivisionError.
  For \<open>a = [1,1,0]\<close>, \<open>b = [1,0,0]\<close> the values are 0.5 and 1.
\<close>

theorem euc_bit_and_bit_tanimoto_formulas:
  "(length a = length b \<longrightarrow>
      euc_bit a b =
        Inr (sqrt (real_of_int (count_nonzero a + count_nonzero b - 2 * agree_count a b))) \<and>
      bit_tanimoto a b =
        (if count_nonzero a + count_nonzero b - agree_count a b = 0 then Inl ZeroDivisionError
         else Inr (real_of_int (agree_count a b) /
                   real_of_int (count_nonzero a + count_nonzero b - agree_count a b)))) \<and>
   bit_tanimoto [1, 1, 0] [1, 0, 0] = Inr (1 / 2) \<and>
   euc_bit [1, 1, 0] [1, 0, 0] = Inr 1"
proof -
  have "bit_tanimoto [1, 1, 0] [1, 0, 0] = Inr (1 / 2)"
    by (simp add: bit_tanimoto_eq agree_count_def count_nonzero_def py_truediv_def)
  moreover have "euc_bit [1, 1, 0] [1, 0, 0] = Inr 1"
    by (simp add: euc_bit_eq agree_count_def count_nonzero_def)
  ultimately show ?thesis
    by (simp add: euc_bit_eq bit_tanimoto_eq py_truediv_def)
qed

theorem euc_bit_and_bit_tanimoto_formulas_witness:
  "length [1, 0, 1 :: int] = length [1, 1, 1 :: int] \<and>
   euc_bit [1, 0, 1] [1, 1, 1] = Inr 1 \<and>
   bit_tanimoto [1, 0, 1] [1, 1, 1] = Inr (2 / 3)"
  using euc_bit_and_bit_tanimoto_formulas [of "[1, 0, 1]" "[1, 1, 1]"]
  by (simp add: agree_count_def count_nonzero_def)

text \<open>
  C8. For every nonzero binary vector \<open>a\<close>, \<open>tanimoto(a, a)\<close> and
  \<open>bit_tanimoto(a, a)\<close> are 1.
\<close>

theorem self_similarity_is_one:
  assumes "binary_vector a" and "nonzero_vector a"
  shows "tanimoto a a = Inr (Finite 1) \<and> bit_tanimoto a a = Inr 1"
  using assms(2) by (simp add: tanimoto_self bit_tanimoto_self)

theorem self_similarity_is_one_witness:
  "binary_vector [0, 1, 1] \<and> nonzero_vector [0, 1, 1] \<and>
   tanimoto [0, 1, 1] [0, 1, 1] = Inr (Finite 1) \<and> bit_tanimoto [0, 1, 1] [0, 1, 1] = Inr 1"
proof -
  have b: "binary_vector [0, 1, 1]" by (simp add: binary_vector_def)
  have n: "nonzero_vector [0, 1, 1]" by (simp add: nonzero_vector_def)
  from self_similarity_is_one [OF b n] b n show ?thesis by simp
qed

text \<open>
  C4. For binary vectors \<open>a\<close>, \<open>b\<close> of the same length \<open>n\<close>, with
  \<open>n_11 = dot(a, b)\<close> and \<open>n_00 = dot(1 - a, 1 - b)\<close>, \<open>modified_tanimoto\<close> returns
  \<open>((2 - p) / 3) * t_1 + ((1 + p) / 3) * t_0\<close>, where \<open>t_1\<close> is 1 exactly when
  \<open>n_00 = n\<close> and \<open>n_11 / (n - n_00)\<close> otherwise, \<open>t_0\<close> is 1 exactly when
  \<open>n_11 = n\<close> and \<open>n_00 / (n - n_11)\<close> otherwise, and \<open>p = ((n - n_00) + n_11) / (2n)\<close>.
  For \<open>n = 0\<close> the quotient \<open>p\<close> does not exist and the call raises ZeroDivisionError.
  On \<open>[1,1,1]\<close>, \<open>[1,1,1]\<close> the result is 1.
\<close>

theorem modified_tanimoto_formula:
  "(length a = length b \<and> binary_vector a \<and> binary_vector b \<longrightarrow>
      modified_tanimoto a b =
        (let n = int (length a);
             n_11 = dot a b;
             n_00 = dot (map (\<lambda>v. 1 - v) a) (map (\<lambda>v. 1 - v) b);
             t_1 = (if n_00 = n then 1 else real_of_int n_11 / real_of_int (n - n_00));
             t_0 = (if n_11 = n then 1 else real_of_int n_00 / real_of_int (n - n_11));
             p = real_of_int ((n - n_00) + n_11) / real_of_int (2 * n)
         in if n = 0 then Inl ZeroDivisionError
            else Inr (((2 - p) / 3) * t_1 + ((1 + p) / 3) * t_0))) \<and>
   modified_tanimoto [1, 1, 1] [1, 1, 1] = Inr 1"
proof -
  have "modified_tanimoto [1, 1, 1] [1, 1, 1] = Inr 1"
    by (simp add: modified_tanimoto_eq dot_def Let_def)
  then show ?thesis
    using modified_tanimoto_eq [of a b] by simp
qed

theorem modified_tanimoto_formula_witness:
  "length [1, 1, 0, 0 :: int] = length [1, 0, 0, 0 :: int] \<and>
   binary_vector [1, 1, 0, 0] \<and> binary_vector [1, 0, 0, 0] \<and>
   modified_tanimoto [1, 1, 0, 0] [1, 0, 0, 0] = Inr (83 / 144)"
  using modified_tanimoto_formula [of "[1, 1, 0, 0]" "[1, 0, 0, 0]"]
  by (simp add: binary_vector_def dot_def Let_def)

text \<open>
  C7. \<open>modified_tanimoto\<close> is symmetric on binary vectors of equal length: both calls
  have the same outcome, and for vectors that are not empty that outcome is a value.
\<close>

theorem modified_tanimoto_symmetric:
  assumes "length a = length b" and "binary_vector a" and "binary_vector b"
  shows "modified_tanimoto a b = modified_tanimoto b a \<and>
         (a \<noteq> [] \<longrightarrow> (\<exists>v. modified_tanimoto a b = Inr v))"
  using assms(1) by (simp add: modified_tanimoto_commute modified_tanimoto_returns)

theorem modified_tanimoto_symmetric_witness:
  "length [1, 1, 0, 0 :: int] = length [1, 0, 0, 0 :: int] \<and>
   binary_vector [1, 1, 0, 0] \<and> binary_vector [1, 0, 0, 0] \<and>
   modified_tanimoto [1, 1, 0, 0] [1, 0, 0, 0] = modified_tanimoto [1, 0, 0, 0] [1, 1, 0, 0] \<and>
   (\<exists>v. modified_tanimoto [1, 1, 0, 0] [1, 0, 0, 0] = Inr v)"
proof -
  have l: "length [1, 1, 0, 0 :: int] = length [1, 0, 0, 0 :: int]" by simp
  have a: "binary_vector [1, 1, 0, 0]" by (simp add: binary_vector_def)
  have b: "binary_vector [1, 0, 0, 0]" by (simp add: binary_vector_def)
  from modified_tanimoto_symmetric [OF l a b] l a b show ?thesis by blast
qed


subsection \<open>The pairwise engine\<close>

text \<open>
  C3, as the specification words it: for every feature matrix and every pair metric the
  returned matrix satisfies \<open>M[i][j] == M[j][i]\<close> for all \<open>i\<close>, \<open>j\<close>. On two all-zero
  rows \<open>tanimoto\<close> divides zero by zero and yields nan; the engine stores it at
  \<open>(0, 1)\<close> and \<open>(1, 0)\<close>, and nan is not equal to itself.
\<close>

theorem pairwise_similarity_bit_nan_entries_unequal:
  "pairwise_similarity_bit [[0, 0], [0, 0]] tanimoto = Inr [[Finite 1, Nan], [Nan, Finite 1]] \<and>
   \<not> fl_eq ([[Finite 1, Nan], [Nan, Finite 1]] ! 0 ! 1) ([[Finite 1, Nan], [Nan, Finite 1]] ! 1 ! 0)"
  by (simp add: pairwise_tanimoto_zero_rows)

text \<open>
  C3, amended. For a feature matrix with \<open>N\<close> rows and any pair metric, the matrix that
  \<open>pairwise_similarity_bit\<close> returns is \<open>N \<times> N\<close>; its entries \<open>(i, j)\<close> and
  \<open>(j, i)\<close> hold the same value, the metric's value for that pair of rows, so that
  \<open>M[i][j] == M[j][i]\<close> holds exactly where that value is not nan; and the diagonal is 1
  in every row whatever the vectors contain: it comes from the identity matrix, the metric
  is never applied to a vector and itself. The engine returns a matrix whenever the metric
  raises on no pair \<open>i < j\<close>.
\<close>

theorem pairwise_similarity_bit_shape_and_diagonal:
  "(pairwise_similarity_bit feature metric = Inr M \<longrightarrow>
      length M = length feature \<and>
      (\<forall>i<length feature. length (M ! i) = length feature) \<and>
      (\<forall>i<length feature. \<forall>j<length feature.
          M ! i ! j = M ! j ! i \<and> (fl_eq (M ! i ! j) (M ! j ! i) \<longleftrightarrow> M ! i ! j \<noteq> Nan)) \<and>
      (\<forall>i<length feature. \<forall>j<length feature. i < j \<longrightarrow>
          metric (feature ! i) (feature ! j) = Inr (M ! i ! j)) \<and>
      (\<forall>i<length feature. M ! i ! i = Finite 1)) \<and>
   ((\<forall>i<length feature. \<forall>j<length feature. i < j \<longrightarrow>
        (\<exists>v. metric (feature ! i) (feature ! j) = Inr v)) \<longrightarrow>
      (\<exists>M. pairwise_similarity_bit feature metric = Inr M))"
proof (intro conjI impI)
  let ?run = "collect (map (\<lambda>(i, j). metric (feature ! i) (feature ! j))
                (pair_indices (length feature)))"
  {
    assume ret: "pairwise_similarity_bit feature metric = Inr M"
    obtain v where v: "?run = Inr v"
    proof (cases ?run)
      case (Inl e)
      from pairwise_similarity_bit_error [OF this] ret show ?thesis by simp
    next
      case (Inr v)
      then show ?thesis by (rule that)
    qed
    from pairwise_similarity_bit_closed_form [OF v] ret
    have M: "M = map (\<lambda>i. map (\<lambda>j. if i = j then Finite 1
                                   else v ! condensed_index (length feature) (min i j) (max i j))
                          [0..<length feature]) [0..<length feature]"
      by simp
    show "length M = length feature" by (simp add: M)
    show "\<forall>i<length feature. length (M ! i) = length feature" by (simp add: M)
    have sym: "\<forall>i<length feature. \<forall>j<length feature. M ! i ! j = M ! j ! i"
      by (simp add: M min.commute max.commute)
    then show "\<forall>i<length feature. \<forall>j<length feature.
          M ! i ! j = M ! j ! i \<and> (fl_eq (M ! i ! j) (M ! j ! i) \<longleftrightarrow> M ! i ! j \<noteq> Nan)"
      by (simp add: fl_eq_same)
    show "\<forall>i<length feature. \<forall>j<length feature. i < j \<longrightarrow>
          metric (feature ! i) (feature ! j) = Inr (M ! i ! j)"
      using pairwise_similarity_bit_entries [OF ret] by blast
    show "\<forall>i<length feature. M ! i ! i = Finite 1" by (simp add: M)
  }
  {
    assume "\<forall>i<length feature. \<forall>j<length feature. i < j \<longrightarrow>
              (\<exists>v. metric (feature ! i) (feature ! j) = Inr v)"
    then have "\<forall>r \<in> set (map (\<lambda>(i, j). metric (feature ! i) (feature ! j))
                   (pair_indices (length feature))). \<exists>v. r = Inr v"
      by (auto dest!: pair_indices_ordered)
    then obtain v where "?run = Inr v"
      using collect_all_values by blast
    from pairwise_similarity_bit_closed_form [OF this]
    show "\<exists>M. pairwise_similarity_bit feature metric = Inr M" by blast
  }
qed

theorem pairwise_similarity_bit_shape_and_diagonal_witness:
  "pairwise_similarity_bit [[1, 0], [1, 1]] tanimoto =
     Inr [[Finite 1, Finite (1 / 2)], [Finite (1 / 2), Finite 1]] \<and>
   length [[Finite 1, Finite (1 / 2)], [Finite (1 / 2), Finite 1]] = length [[1, 0], [1, 1 :: int]] \<and>
   [[Finite 1, Finite (1 / 2)], [Finite (1 / 2), Finite 1]] ! 0 ! 1 =
     [[Finite 1, Finite (1 / 2)], [Finite (1 / 2), Finite 1]] ! 1 ! 0 \<and>
   fl_eq ([[Finite 1, Finite (1 / 2)], [Finite (1 / 2), Finite 1]] ! 0 ! 1)
         ([[Finite 1, Finite (1 / 2)], [Finite (1 / 2), Finite 1]] ! 1 ! 0) \<and>
   tanimoto [1, 0] [1, 1] = Inr (Finite (1 / 2)) \<and>
   [[Finite 1, Finite (1 / 2)], [Finite (1 / 2), Finite 1]] ! 0 ! 0 = Finite 1 \<and>
   [[Finite 1, Finite (1 / 2)], [Finite (1 / 2), Finite 1]] ! 1 ! 1 = Finite 1"
proof -
  let ?x = "[[1, 0], [1, 1 :: int]]"
  let ?M = "[[Finite 1, Finite (1 / 2)], [Finite (1 / 2), Finite 1]]"
  note ret = pairwise_tanimoto_example
  from pairwise_similarity_bit_shape_and_diagonal [of ?x tanimoto ?M] ret
  have shape: "length ?M = length ?x"
    and sym: "\<forall>i<length ?x. \<forall>j<length ?x.
          ?M ! i ! j = ?M ! j ! i \<and> (fl_eq (?M ! i ! j) (?M ! j ! i) \<longleftrightarrow> ?M ! i ! j \<noteq> Nan)"
    and entries: "\<forall>i<length ?x. \<forall>j<length ?x. i < j \<longrightarrow>
          tanimoto (?x ! i) (?x ! j) = Inr (?M ! i ! j)"
    and diag: "\<forall>i<length ?x. ?M ! i ! i = Finite 1"
    by blast+
  from sym [rule_format, of 0 1]
  have "?M ! 0 ! 1 = ?M ! 1 ! 0" and "fl_eq (?M ! 0 ! 1) (?M ! 1 ! 0)" by simp_all
  moreover from entries [rule_format, of 0 1]
  have "tanimoto [1, 0] [1, 1] = Inr (Finite (1 / 2))" by simp
  moreover from diag [rule_format, of 0] diag [rule_format, of 1]
  have "?M ! 0 ! 0 = Finite 1" and "?M ! 1 ! 1 = Finite 1" by simp_all
  ultimately show ?thesis using ret shape by simp
qed

subsection \<open>The dispatcher\<close>

text \<open>
  C1. For the built-in metric names the dispatcher is to select the pair metric and
  return \<open>pairwise_similarity_bit(features, metric_fn)\<close>. The code instead calls the
  selected pair metric on the feature matrix alone, \<open>function_dict[metric](features)\<close>,
  which raises TypeError for the missing parameter \<open>b\<close>; the engine on the same
  input returns a matrix.
\<close>

theorem compute_distance_matrix_tanimoto_raises:
  "compute_distance_matrix [''euclidean'', ''cosine'', ''manhattan''] pairwise_distances
       [[1, 0], [1, 1]] ''tanimoto'' n_jobs force_all_finite kwargs = Inl (TypeError [''b'']) \<and>
   pairwise_similarity_bit [[1, 0], [1, 1]] tanimoto =
     Inr [[Finite 1, Finite (1 / 2)], [Finite (1 / 2), Finite 1]]"
  by (simp add: compute_distance_matrix_cases pairwise_tanimoto_example)

text \<open>
  C6. A metric name that is neither in the backend's list nor one of \<open>tanimoto\<close>,
  \<open>modified_tanimoto\<close> makes \<open>compute_distance_matrix\<close> raise a ValueError whose
  message contains the name; no matrix is returned.
\<close>

theorem unsupported_metric_raises:
  assumes "metric \<notin> set sklearn_supported_metrics"
    and "metric \<notin> {''tanimoto'', ''modified_tanimoto''}"
  shows "compute_distance_matrix sklearn_supported_metrics pairwise_distances
           features metric n_jobs force_all_finite kwargs =
         Inl (ValueError (''Metric '' @ metric @ '' is not supported by the library.''))"
  using assms by (simp add: compute_distance_matrix_cases)

theorem unsupported_metric_raises_witness:
  "''not_a_real_metric'' \<notin> set [''euclidean'', ''cosine'', ''manhattan''] \<and>
   ''not_a_real_metric'' \<notin> {''tanimoto'', ''modified_tanimoto''} \<and>
   compute_distance_matrix [''euclidean'', ''cosine'', ''manhattan''] (\<lambda>f m n c k. Inr [])
       [[1, 0], [1, 1]] ''not_a_real_metric'' (-1) True () =
     Inl (ValueError ''Metric not_a_real_metric is not supported by the library.'')"
proof -
  have a: "''not_a_real_metric'' \<notin> set [''euclidean'', ''cosine'', ''manhattan'']" by simp
  have b: "''not_a_real_metric'' \<notin> {''tanimoto'', ''modified_tanimoto''}" by simp
  from unsupported_metric_raises [OF a b] a b show ?thesis by simp
qed

subsection \<open>Malformed shapes\<close>

text \<open>
  C9, as the specification words it: vectors of unequal length make the operations fail
  with an error instead of returning a result. \<open>euc_bit\<close> does return a result when
  its second vector is the longer one.
\<close>

theorem euc_bit_longer_second_vector_returns:
  "length [1 :: int] \<noteq> length [1, 1 :: int] \<and> euc_bit [1] [1, 1] = Inr 1"
  by (simp add: euc_bit_eq agree_count_def count_nonzero_def)

text \<open>
  C9, amended. The module has no shape checks of its own. \<open>euc_bit\<close> fails, with the
  IndexError of the out-of-range read, exactly when its second vector is shorter than
  the first; otherwise it returns the distance computed over the positions of the first.
  \<open>compute_distance_matrix\<close> does not look at the number of rows: for a metric of the
  general-purpose backend it returns whatever the backend returns for the matrix.
\<close>

theorem shape_checks_absent:
  "euc_bit a b =
     (if length b < length a then Inl IndexError
      else Inr (sqrt (real_of_int (count_nonzero a + count_nonzero b - 2 * agree_count a b)))) \<and>
   (metric \<in> set sklearn_supported_metrics \<longrightarrow>
      compute_distance_matrix sklearn_supported_metrics pairwise_distances
          features metric n_jobs force_all_finite kwargs =
        pairwise_distances features metric n_jobs force_all_finite kwargs)"
  by (simp add: euc_bit_eq compute_distance_matrix_cases)

theorem shape_checks_absent_witness:
  "euc_bit [1, 1] [1] = Inl IndexError \<and>
   ''euclidean'' \<in> set [''euclidean'', ''cosine'', ''manhattan''] \<and>
   compute_distance_matrix [''euclidean'', ''cosine'', ''manhattan''] (\<lambda>f m n c k. Inr [[Finite 0]])
       [[1, 0]] ''euclidean'' (-1) True () = Inr [[Finite 0]]"
  using shape_checks_absent [of "[1, 1]" "[1]" "''euclidean''"
      "[''euclidean'', ''cosine'', ''manhattan'']" "\<lambda>f m n c k. Inr [[Finite 0]]" "[[1, 0]]" "-1" True "()"]
  by simp


subsection \<open>The nearest-neighbour average\<close>

text \<open>
  C2. For every feature matrix \<open>x\<close> of binary vectors, \<open>nearest_average_tanimoto\<close> is to
  find for each row its nearest other row under \<open>euc_bit\<close> and return the mean of
  \<open>bit_tanimoto\<close> over these pairs. On the two rows of 10000 ones and of 10000 zeros
  each row is the other's nearest, at distance 100, and \<open>bit_tanimoto\<close> of the pair is 0
  in either order, so the mean over the nearest pairs is 0. The scan starts from the
  sentinel 100 and compares strictly, finds no row, and the code returns 1, the mean of
  \<open>bit_tanimoto(x[0], x[0])\<close> taken twice.
\<close>

theorem nearest_average_tanimoto_far_rows:
  "feature_matrix [replicate 10000 1, replicate 10000 0] \<and>
   list_all binary_vector [replicate 10000 1, replicate 10000 0] \<and>
   nearest_neighbour [replicate 10000 1, replicate 10000 0] 0 = Some 1 \<and>
   nearest_neighbour [replicate 10000 1, replicate 10000 0] 1 = Some 0 \<and>
   euc_bit (replicate 10000 1) (replicate 10000 0) = Inr 100 \<and>
   euc_bit (replicate 10000 0) (replicate 10000 1) = Inr 100 \<and>
   mean_outcome [bit_tanimoto (replicate 10000 1) (replicate 10000 0),
                 bit_tanimoto (replicate 10000 0) (replicate 10000 1)] = Inr (Finite 0) \<and>
   nearest_average_tanimoto [replicate 10000 1, replicate 10000 0] = Inr (Finite 1)"
proof -
  let ?x = "[replicate 10000 1, replicate 10000 (0 :: int)]"
  have "feature_matrix ?x" by (simp add: feature_matrix_def)
  moreover have "list_all binary_vector ?x"
    by (simp add: binary_vector_def list_all_iff)
  moreover have "nearest_neighbour ?x 0 = Some 1" "nearest_neighbour ?x 1 = Some 0"
    by (simp_all add: nearest_neighbour_def)
  moreover have "euc_bit (replicate 10000 1) (replicate 10000 0) = Inr 100"
    "euc_bit (replicate 10000 0) (replicate 10000 1) = Inr 100"
    using far_rows_distance by (simp_all add: euc_bit_eq euc_dist_def)
  moreover have "mean_outcome [bit_tanimoto (replicate 10000 1) (replicate 10000 0),
                 bit_tanimoto (replicate 10000 0) (replicate 10000 1)] = Inr (Finite 0)"
    by (simp add: mean_outcome_def bit_tanimoto_eq count_nonzero_def agree_count_def py_truediv_def)
  ultimately show ?thesis
    using far_rows_average by simp
qed

theorem nearest_average_tanimoto_far_rows_witness:
  "nearest_neighbour [replicate 10000 1, replicate 10000 0] 0 = Some 1 \<and>
   nearest_neighbour [replicate 10000 1, replicate 10000 0] 1 = Some 0 \<and>
   nearest_average_tanimoto [replicate 10000 1, replicate 10000 0] = Inr (Finite 1)"
  using nearest_average_tanimoto_far_rows by blast

text \<open>
  C10. When no other row \<open>j\<close> has \<open>euc_bit(x[i], x[j]) < 100\<close>, the scan for row
  \<open>i\<close> ends with its variables untouched, the indices \<open>a\<close> and \<open>b\<close> both 0, and the
  value accumulated for \<open>i\<close> is \<open>bit_tanimoto(x[0], x[0])\<close>: it is computed from row 0
  alone, not from \<open>i\<close> and a neighbour.
\<close>

theorem nearest_scan_sentinel_fallback:
  assumes "feature_matrix x" and "i < length x"
    and "\<forall>j<length x. j \<noteq> i \<longrightarrow> \<not> (\<exists>d. euc_bit (x ! i) (x ! j) = Inr d \<and> d < 100)"
  shows "nearest_scan x i [0..<length x] (100, 0, 0) = Inr (100, 0, 0) \<and>
         nearest_tanimoto x i = bit_tanimoto (x ! 0) (x ! 0)"
proof -
  from assms have "\<forall>j<length x. j \<noteq> i \<longrightarrow> \<not> euc_dist (x ! i) (x ! j) < 100"
    by (simp add: euc_bit_rows)
  then have "nearest_other x i = None"
    by (simp only: nearest_other_None_iff)
  then show ?thesis
    by (simp add: nearest_scan_result [OF assms(1,2)] nearest_tanimoto_eq [OF assms(1,2)])
qed

theorem nearest_scan_sentinel_fallback_witness:
  "feature_matrix [replicate 10000 1, replicate 10000 0] \<and>
   1 < length [replicate 10000 1, replicate 10000 (0 :: int)] \<and>
   euc_bit ([replicate 10000 1, replicate 10000 0] ! 1)
           ([replicate 10000 1, replicate 10000 0] ! 0) = Inr 100 \<and>
   nearest_tanimoto [replicate 10000 1, replicate 10000 0] 1 = Inr 1 \<and>
   bit_tanimoto (replicate 10000 0) (replicate 10000 1) = Inr 0"
proof -
  let ?x = "[replicate 10000 1, replicate 10000 (0 :: int)]"
  have fm: "feature_matrix ?x" by (simp add: feature_matrix_def)
  have i: "1 < length ?x" by simp
  have d: "euc_bit (replicate 10000 0) (replicate 10000 1) = Inr 100"
    using real_sqrt_abs [of 100]
    by (simp add: euc_bit_eq count_nonzero_def agree_count_def)
  have far: "\<forall>j<length ?x. j \<noteq> 1 \<longrightarrow> \<not> (\<exists>d. euc_bit (?x ! 1) (?x ! j) = Inr d \<and> d < 100)"
    using d by (auto simp add: less_Suc_eq)
  have self: "bit_tanimoto (replicate 10000 1) (replicate 10000 1) = Inr 1"
    by (simp add: bit_tanimoto_eq count_nonzero_def agree_count_def py_truediv_def)
  have other: "bit_tanimoto (replicate 10000 0) (replicate 10000 1) = Inr 0"
    by (simp add: bit_tanimoto_eq count_nonzero_def agree_count_def py_truediv_def)
  from nearest_scan_sentinel_fallback [OF fm i far] fm i d self other show ?thesis
    by simp
qed


end
